theory Spec2Isabelle
  imports Main
begin

section \<open>The community machine: data\<close>

text \<open>
  The source file \<^verbatim>\<open>src/unnamed/part_000\<close> builds one statechart with \<^verbatim>\<open>Machine(config, options)\<close>.
  The configuration (states, transitions, invocations) and the options (guards, services,
  actions) are embedded below as they are written. Names that the source uses twice (a state
  and a service called \<^verbatim>\<open>toggleFollow\<close>, a state and an action called \<^verbatim>\<open>notFound\<close>, a guard and a
  context field called \<^verbatim>\<open>isAuthenticated\<close>) carry a prefix here: \<open>S_\<close> for state nodes, \<open>G_\<close> for
  guards, \<open>A_\<close> for actions, \<open>Svc_\<close> for services.
\<close>

text \<open>The loaded entity; the machine reads only its \<^verbatim>\<open>id\<close>.\<close>

record community =
  community_id :: string

text \<open>
  A spawned child actor: which machine was created (\<^verbatim>\<open>createFollowMachine\<close> or
  \<^verbatim>\<open>createActivitiesMachineServices\<close>) and the value of \<^verbatim>\<open>context.community\<close> it was created with
  (\<open>None\<close> is \<^verbatim>\<open>undefined\<close>).
\<close>

datatype machine_kind = FollowMachine | ActivitiesMachine

datatype actor_ref = ActorRef machine_kind "community option"

text \<open>The machine context, lines 39-47. \<open>None\<close> is \<^verbatim>\<open>undefined\<close>.\<close>

record machine_context =
  slug :: string
  community :: "community option"
  followMachineServices :: "actor_ref option"
  activitiesMachineServices :: "actor_ref option"
  isFollowing :: bool
  isAuthenticated :: bool

definition initial_context :: "string \<Rightarrow> machine_context" where
  "initial_context sl =
     \<lparr>slug = sl, community = None, followMachineServices = None,
      activitiesMachineServices = None, isFollowing = False, isAuthenticated = False\<rparr>"

datatype service = Svc_queryCommunity | Svc_queryMyFollowing | Svc_toggleFollow

text \<open>
  The events the machine receives. \<open>AUTHENTICATED\<close>, \<open>FOLLOW\<close> and \<open>FOLLOWING\<close> are the external
  events of the comment at lines 14-25. A settled promise of an invoked service arrives as
  \<^verbatim>\<open>done.invoke.<id>\<close> with the resolved value as \<^verbatim>\<open>event.data\<close>, or as \<^verbatim>\<open>error.platform.<id>\<close>; the
  resolved values have the types of the three API calls (an entity or \<^verbatim>\<open>null\<close>, a list of ids,
  the new following status). The number names the promise that settled: every call of a
  service creates a new promise. \<open>Init\<close> is the event of the initial entry.
\<close>

datatype event =
    Init
  | AUTHENTICATED bool
  | FOLLOW
  | FOLLOWING bool
  | Done_queryCommunity nat "community option"
  | Done_queryMyFollowing nat "string list"
  | Done_toggleFollow nat bool
  | Error_invoke service nat

datatype event_type =
    EV_init | EV_AUTHENTICATED | EV_FOLLOW | EV_FOLLOWING
  | EV_done_invoke service | EV_error_platform service | EV_null

fun event_type_of :: "event \<Rightarrow> event_type" where
  "event_type_of Init = EV_init"
| "event_type_of (AUTHENTICATED b) = EV_AUTHENTICATED"
| "event_type_of FOLLOW = EV_FOLLOW"
| "event_type_of (FOLLOWING b) = EV_FOLLOWING"
| "event_type_of (Done_queryCommunity k d) = EV_done_invoke Svc_queryCommunity"
| "event_type_of (Done_queryMyFollowing k d) = EV_done_invoke Svc_queryMyFollowing"
| "event_type_of (Done_toggleFollow k d) = EV_done_invoke Svc_toggleFollow"
| "event_type_of (Error_invoke v k) = EV_error_platform v"

text \<open>The promise whose settling an event reports, if it reports one.\<close>

fun completion :: "event \<Rightarrow> (service \<times> nat) option" where
  "completion (Done_queryCommunity k d) = Some (Svc_queryCommunity, k)"
| "completion (Done_queryMyFollowing k d) = Some (Svc_queryMyFollowing, k)"
| "completion (Done_toggleFollow k d) = Some (Svc_toggleFollow, k)"
| "completion (Error_invoke v k) = Some (v, k)"
| "completion e = None"

text \<open>
  What the options read from an event. \<^verbatim>\<open>event.data === null\<close> holds only for a query that
  resolved to \<^verbatim>\<open>null\<close>; \<^verbatim>\<open>event.status\<close> and \<^verbatim>\<open>event.data\<close> are \<^verbatim>\<open>undefined\<close> on an event that
  does not carry them. The two boolean context fields are only ever tested for truthiness,
  so a value stored in them is kept as its truth value (\<^verbatim>\<open>undefined\<close> and \<^verbatim>\<open>null\<close> are falsy,
  objects and arrays are truthy).
\<close>

fun data_is_null :: "event \<Rightarrow> bool" where
  "data_is_null (Done_queryCommunity k None) = True"
| "data_is_null e = False"

fun data_entity :: "event \<Rightarrow> community option" where
  "data_entity (Done_queryCommunity k d) = d"
| "data_entity e = None"

fun data_truth :: "event \<Rightarrow> bool" where
  "data_truth (Done_toggleFollow k b) = b"
| "data_truth (Done_queryCommunity k d) = (d \<noteq> None)"
| "data_truth (Done_queryMyFollowing k ids) = True"
| "data_truth e = False"

fun status :: "event \<Rightarrow> bool" where
  "status (AUTHENTICATED b) = b"
| "status (FOLLOWING b) = b"
| "status e = False"

section \<open>The options: guards, services, actions (lines 230-288)\<close>

datatype guard =
    G_isValidSlug | G_communityFound | G_communityNotFound
  | G_isAuthenticated | G_isUnAuthenticated

text \<open>
  \<^verbatim>\<open>isValidSlug\<close> is imported from \<^verbatim>\<open>machines/guards/slug\<close>, which is not among the sources; it
  is the parameter \<open>vs\<close>, a predicate on the context, of everything below.
\<close>

fun guards :: "(machine_context \<Rightarrow> bool) \<Rightarrow> guard \<Rightarrow> machine_context \<Rightarrow> event \<Rightarrow> bool" where
  "guards vs G_isValidSlug c e = vs c"
| "guards vs G_communityFound c e = (\<not> data_is_null e)"
| "guards vs G_communityNotFound c e = data_is_null e"
| "guards vs G_isAuthenticated c e = isAuthenticated c"
| "guards vs G_isUnAuthenticated c e = isAuthenticated c"

text \<open>Reading \<^verbatim>\<open>.id\<close> of \<^verbatim>\<open>undefined\<close>, or calling \<^verbatim>\<open>.includes\<close> on a value without it, throws.\<close>

datatype error = TypeError

text \<open>The API calls the services make.\<close>

datatype call =
    Call_queryCommunityBySlug string
  | Call_queryMeFollowingCommunities
  | Call_toggleFollow string

fun services :: "service \<Rightarrow> machine_context \<Rightarrow> error + call" where
  "services Svc_queryCommunity c = Inr (Call_queryCommunityBySlug (slug c))"
| "services Svc_queryMyFollowing c = Inr Call_queryMeFollowingCommunities"
| "services Svc_toggleFollow c =
     (case community c of
        None \<Rightarrow> Inl TypeError
      | Some cm \<Rightarrow> Inr (Call_toggleFollow (community_id cm)))"

text \<open>
  What the machine does to the outside: a navigation, a call of \<^verbatim>\<open>log\<close> (its \<^verbatim>\<open>extra\<close> field
  holds the context and the event), the call a started service makes, the spawning of a
  child machine, and an event sent to an actor (to \<^verbatim>\<open>context.followMachineServices\<close>, which
  may be \<^verbatim>\<open>undefined\<close>).
\<close>

datatype effect =
    NavigateTo string
  | Log machine_context event
  | Invoke service nat call
  | Spawn actor_ref
  | SendTo "actor_ref option" string

datatype action =
    A_logError | A_notFound | A_login | A_refreshFollowers
  | A_setIsAuthenticated | A_queryCommunitySuccess | A_queryMyFollowingSuccess
  | A_toggleFollowSuccess | A_createFollowMachineServices | A_createActivityMachineServices

text \<open>
  One action: the context after it (an \<^verbatim>\<open>assign\<close> merges its patch, every other action leaves
  the context as it is) and the effects it has, or the exception it throws.
\<close>

fun exec :: "action \<Rightarrow> machine_context \<Rightarrow> event \<Rightarrow> error + (machine_context \<times> effect list)" where
  "exec A_logError c e = Inr (c, [Log c e])"
| "exec A_notFound c e = Inr (c, [NavigateTo ''/not-found''])"
| "exec A_login c e = Inr (c, [NavigateTo ''/login''])"
| "exec A_refreshFollowers c e = Inr (c, [SendTo (followMachineServices c) ''REFRESH''])"
| "exec A_setIsAuthenticated c e = Inr (c\<lparr>isAuthenticated := status e\<rparr>, [])"
| "exec A_queryCommunitySuccess c e = Inr (c\<lparr>community := data_entity e\<rparr>, [])"
| "exec A_queryMyFollowingSuccess c e =
     (case e of
        Done_queryMyFollowing k ids \<Rightarrow>
          (case community c of
             None \<Rightarrow> Inl TypeError
           | Some cm \<Rightarrow> Inr (c\<lparr>isFollowing := (community_id cm \<in> set ids)\<rparr>, []))
      | _ \<Rightarrow> Inl TypeError)"
| "exec A_toggleFollowSuccess c e = Inr (c\<lparr>isFollowing := data_truth e\<rparr>, [])"
| "exec A_createFollowMachineServices c e =
     Inr (c\<lparr>followMachineServices := Some (ActorRef FollowMachine (community c))\<rparr>,
          [Spawn (ActorRef FollowMachine (community c))])"
| "exec A_createActivityMachineServices c e =
     Inr (c\<lparr>activitiesMachineServices := Some (ActorRef ActivitiesMachine (community c))\<rparr>,
          [Spawn (ActorRef ActivitiesMachine (community c))])"

section \<open>The configuration: state nodes and transitions (lines 35-229)\<close>

datatype node =
    S_community
  | S_validating
  | S_loading
  | S_communityLoaded
  | S_unknown
  | S_authenticated
  | S_loadFollowing
  | S_toggleFollow
  | S_loaded
  | S_authenticated_error
  | S_unAuthenticated
  | S_notFound
  | S_error

text \<open>
  A transition candidate: its guard, its actions and its target. A target written with a
  leading dot (\<^verbatim>\<open>'.unknown'\<close>, \<^verbatim>\<open>'.toggleFollow'\<close>) names a child of the state that declares the
  transition and makes the transition internal; any other target names a sibling.
\<close>

record transition =
  t_cond :: "guard option"
  t_actions :: "action list"
  t_target :: "node option"
  t_internal :: bool

record invocation =
  src :: service
  onDone :: "transition list"
  onError :: "transition list"

fun parent :: "node \<Rightarrow> node option" where
  "parent S_community = None"
| "parent S_validating = Some S_community"
| "parent S_loading = Some S_community"
| "parent S_communityLoaded = Some S_community"
| "parent S_unknown = Some S_communityLoaded"
| "parent S_authenticated = Some S_communityLoaded"
| "parent S_loadFollowing = Some S_authenticated"
| "parent S_toggleFollow = Some S_authenticated"
| "parent S_loaded = Some S_authenticated"
| "parent S_authenticated_error = Some S_authenticated"
| "parent S_unAuthenticated = Some S_communityLoaded"
| "parent S_notFound = Some S_community"
| "parent S_error = Some S_community"

fun initial :: "node \<Rightarrow> node option" where
  "initial S_community = Some S_validating"
| "initial S_communityLoaded = Some S_unknown"
| "initial S_authenticated = Some S_loadFollowing"
| "initial n = None"

fun final :: "node \<Rightarrow> bool" where
  "final S_authenticated_error = True"
| "final S_notFound = True"
| "final S_error = True"
| "final n = False"

fun entry :: "node \<Rightarrow> action list" where
  "entry S_authenticated_error = [A_logError]"
| "entry S_notFound = [A_notFound]"
| "entry S_error = [A_logError]"
| "entry n = []"

text \<open>The \<^verbatim>\<open>on\<close> tables; the key \<^verbatim>\<open>''\<close> of the source is \<open>EV_null\<close>.\<close>

fun on :: "node \<Rightarrow> event_type \<Rightarrow> transition list" where
  "on S_community EV_AUTHENTICATED =
     [\<lparr>t_cond = None, t_actions = [A_setIsAuthenticated], t_target = None, t_internal = True\<rparr>]"
| "on S_validating EV_null =
     [\<lparr>t_cond = Some G_isValidSlug, t_actions = [], t_target = Some S_loading,
       t_internal = False\<rparr>,
      \<lparr>t_cond = None, t_actions = [], t_target = Some S_notFound, t_internal = False\<rparr>]"
| "on S_communityLoaded EV_AUTHENTICATED =
     [\<lparr>t_cond = None, t_actions = [A_setIsAuthenticated], t_target = Some S_unknown,
       t_internal = True\<rparr>]"
| "on S_unknown EV_null =
     [\<lparr>t_cond = Some G_isAuthenticated, t_actions = [], t_target = Some S_authenticated,
       t_internal = False\<rparr>,
      \<lparr>t_cond = Some G_isUnAuthenticated, t_actions = [], t_target = Some S_unAuthenticated,
       t_internal = False\<rparr>]"
| "on S_authenticated EV_FOLLOW =
     [\<lparr>t_cond = None, t_actions = [], t_target = Some S_toggleFollow, t_internal = True\<rparr>]"
| "on n et = []"

fun invoke :: "node \<Rightarrow> invocation option" where
  "invoke S_loading = Some
     \<lparr>src = Svc_queryCommunity,
      onDone =
        [\<lparr>t_cond = Some G_communityFound,
          t_actions = [A_queryCommunitySuccess, A_createFollowMachineServices,
                       A_createActivityMachineServices],
          t_target = Some S_communityLoaded, t_internal = False\<rparr>,
         \<lparr>t_cond = Some G_communityNotFound, t_actions = [], t_target = Some S_notFound,
          t_internal = False\<rparr>],
      onError =
        [\<lparr>t_cond = None, t_actions = [], t_target = Some S_error, t_internal = False\<rparr>]\<rparr>"
| "invoke S_loadFollowing = Some
     \<lparr>src = Svc_queryMyFollowing,
      onDone =
        [\<lparr>t_cond = None, t_actions = [A_queryMyFollowingSuccess], t_target = Some S_loaded,
          t_internal = False\<rparr>],
      onError =
        [\<lparr>t_cond = None, t_actions = [], t_target = Some S_authenticated_error,
          t_internal = False\<rparr>]\<rparr>"
| "invoke S_toggleFollow = Some
     \<lparr>src = Svc_toggleFollow,
      onDone =
        [\<lparr>t_cond = None, t_actions = [A_toggleFollowSuccess, A_refreshFollowers],
          t_target = Some S_loaded, t_internal = False\<rparr>],
      onError =
        [\<lparr>t_cond = None, t_actions = [], t_target = Some S_authenticated_error,
          t_internal = False\<rparr>]\<rparr>"
| "invoke n = None"

section \<open>The interpreter\<close>

text \<open>
  The source imports the interpreter that runs the configuration (\<^verbatim>\<open>Machine\<close> of the xstate
  library, line 2) and holds none of its code. The definitions below that say so are modelled
  from sections 3 to 5 of the specification; the others only read the configuration above.
  The configuration has no parallel states, so the active configuration is a path from the
  root to a leaf and is given by its leaf.
\<close>

text \<open>The depth of a node in the tree of states.\<close>

fun level :: "node \<Rightarrow> nat" where
  "level S_community = 0"
| "level S_validating = 1"
| "level S_loading = 1"
| "level S_communityLoaded = 1"
| "level S_notFound = 1"
| "level S_error = 1"
| "level S_unknown = 2"
| "level S_authenticated = 2"
| "level S_unAuthenticated = 2"
| "level S_loadFollowing = 3"
| "level S_toggleFollow = 3"
| "level S_loaded = 3"
| "level S_authenticated_error = 3"

text \<open>The proper ancestors of a node, nearest first.\<close>

function ancestors :: "node \<Rightarrow> node list" where
  "ancestors n = (case parent n of None \<Rightarrow> [] | Some p \<Rightarrow> p # ancestors p)"
  by pat_completeness auto
termination
proof (relation "measure level")
  show "wf (measure level)" by simp
next
  fix n p
  assume "parent n = Some p"
  then show "(p, n) \<in> measure level" by (cases n) auto
qed

text \<open>The initial substates below a node, down to a leaf.\<close>

function initial_descendants :: "node \<Rightarrow> node list" where
  "initial_descendants n =
     (case initial n of None \<Rightarrow> [] | Some i \<Rightarrow> i # initial_descendants i)"
  by pat_completeness auto
termination
proof (relation "measure (\<lambda>n. 4 - level n)")
  show "wf (measure (\<lambda>n. 4 - level n))" by simp
next
  fix n i
  assume "initial n = Some i"
  then show "(i, n) \<in> measure (\<lambda>n. 4 - level n)" by (cases n) auto
qed

declare ancestors.simps [simp del]
declare initial_descendants.simps [simp del]

text \<open>The active configuration with a given leaf, leaf first.\<close>

definition configuration :: "node \<Rightarrow> node list" where
  "configuration n = n # ancestors n"

definition leaf :: "node \<Rightarrow> node" where
  "leaf tg = last (tg # initial_descendants tg)"

definition target_configuration :: "node \<Rightarrow> node list" where
  "target_configuration tg = rev (initial_descendants tg) @ tg # ancestors tg"

text \<open>
  Modelled from the spec: which states a transition leaves and enters again although they
  stay active (the interpreter is missing). An external transition does so with its source
  and what is below it; an internal one, written with a leading dot, does not.
\<close>

definition reentered :: "transition \<Rightarrow> node \<Rightarrow> node \<Rightarrow> bool" where
  "reentered t sn n = (\<not> t_internal t \<and> (n = sn \<or> sn \<in> set (ancestors n)))"

text \<open>
  Modelled from the spec: the states being left (the interpreter is missing): the active states
  that are not in the new configuration, from the leaf to the root.
\<close>

definition exit_set :: "transition \<Rightarrow> node \<Rightarrow> node list \<Rightarrow> node list \<Rightarrow> node list" where
  "exit_set t sn old new = filter (\<lambda>n. n \<notin> set new \<or> reentered t sn n) old"

text \<open>
  Modelled from the spec: the newly entered states (the interpreter is missing): the states of
  the new configuration that were not active, from the root to the leaf.
\<close>

definition entry_set :: "transition \<Rightarrow> node \<Rightarrow> node list \<Rightarrow> node list \<Rightarrow> node list" where
  "entry_set t sn old new = filter (\<lambda>n. n \<notin> set old \<or> reentered t sn n) (rev new)"

text \<open>
  Modelled from the spec: the state of an interpreter instance (the interpreter is missing):
  the active leaf, the context, the promises of the invocations in flight (service and
  number), the number of the next promise, and the effects so far.
\<close>

record interpreter =
  active :: node
  ctx :: machine_context
  children :: "(service \<times> nat) list"
  next_token :: nat
  effects :: "effect list"

text \<open>
  Modelled from the spec: the transitions a node offers for an event type (the interpreter is
  missing): those of its \<^verbatim>\<open>on\<close> table, then \<^verbatim>\<open>onDone\<close> or \<^verbatim>\<open>onError\<close> of its invocation for the
  completion of that invocation.
\<close>

definition candidates :: "node \<Rightarrow> event_type \<Rightarrow> transition list" where
  "candidates n et =
     on n et @
     (case invoke n of
        None \<Rightarrow> []
      | Some i \<Rightarrow>
          (if et = EV_done_invoke (src i) then onDone i
           else if et = EV_error_platform (src i) then onError i
           else []))"

text \<open>
  Modelled from the spec: candidates are tried in declaration order and the first whose guard
  passes, or that has no guard, is taken (the interpreter is missing).
\<close>

fun first_enabled ::
  "(machine_context \<Rightarrow> bool) \<Rightarrow> machine_context \<Rightarrow> event \<Rightarrow> transition list \<Rightarrow> transition option"
where
  "first_enabled vs c e [] = None"
| "first_enabled vs c e (t # ts) =
     (if (case t_cond t of None \<Rightarrow> True | Some g \<Rightarrow> guards vs g c e) then Some t
      else first_enabled vs c e ts)"

text \<open>
  Modelled from the spec: an event is looked up at every active level from the leaf to the
  root; the lowest level with an enabled candidate wins (the interpreter is missing).
\<close>

fun select ::
  "(machine_context \<Rightarrow> bool) \<Rightarrow> machine_context \<Rightarrow> event \<Rightarrow> event_type \<Rightarrow> node list \<Rightarrow>
   (node \<times> transition) option"
where
  "select vs c e et [] = None"
| "select vs c e et (n # ns) =
     (case first_enabled vs c e (candidates n et) of
        Some t \<Rightarrow> Some (n, t)
      | None \<Rightarrow> select vs c e et ns)"

text \<open>
  Modelled from the spec: the actions of a batch run in declaration order and a context patch
  is applied at once, so that the next action sees it (the interpreter is missing).
\<close>

fun exec_actions ::
  "action list \<Rightarrow> machine_context \<Rightarrow> event \<Rightarrow> error + (machine_context \<times> effect list)"
where
  "exec_actions [] c e = Inr (c, [])"
| "exec_actions (a # as) c e =
     (case exec a c e of
        Inl x \<Rightarrow> Inl x
      | Inr (c', fx) \<Rightarrow>
          (case exec_actions as c' e of
             Inl x \<Rightarrow> Inl x
           | Inr (c'', fx') \<Rightarrow> Inr (c'', fx @ fx')))"

text \<open>
  Modelled from the spec: exiting a state abandons its invocation (the interpreter is missing);
  its promise is no longer listened to.
\<close>

fun stop_all :: "node list \<Rightarrow> (service \<times> nat) list \<Rightarrow> (service \<times> nat) list" where
  "stop_all [] ch = ch"
| "stop_all (n # ns) ch =
     stop_all ns
       (case invoke n of None \<Rightarrow> ch | Some i \<Rightarrow> filter (\<lambda>k. fst k \<noteq> src i) ch)"

text \<open>
  Modelled from the spec: entering a state with an invocation calls the service with the
  current context (the interpreter is missing); the promise gets the next number.
\<close>

definition start_invocation :: "node \<Rightarrow> interpreter \<Rightarrow> error + interpreter" where
  "start_invocation n s =
     (case invoke n of
        None \<Rightarrow> Inr s
      | Some i \<Rightarrow>
          (case services (src i) (ctx s) of
             Inl x \<Rightarrow> Inl x
           | Inr cl \<Rightarrow>
               Inr (s\<lparr>children := children s @ [(src i, next_token s)],
                      next_token := Suc (next_token s),
                      effects := effects s @ [Invoke (src i) (next_token s) cl]\<rparr>)))"

text \<open>
  Modelled from the spec: the entered states are taken from the root to the leaf; each starts
  its invocation and runs its entry actions (the interpreter is missing).
\<close>

fun enter :: "node list \<Rightarrow> event \<Rightarrow> interpreter \<Rightarrow> error + interpreter" where
  "enter [] e s = Inr s"
| "enter (n # ns) e s =
     (case start_invocation n s of
        Inl x \<Rightarrow> Inl x
      | Inr s1 \<Rightarrow>
          (case exec_actions (entry n) (ctx s1) e of
             Inl x \<Rightarrow> Inl x
           | Inr (c, fx) \<Rightarrow> enter ns e (s1\<lparr>ctx := c, effects := effects s1 @ fx\<rparr>)))"

text \<open>
  Modelled from the spec: taking the transition \<open>t\<close> declared by the node \<open>sn\<close> (the interpreter
  is missing). A transition without target only runs its actions. Otherwise the states being
  left are exited, the transition actions run, and the newly entered states are entered. The
  source declares no exit actions, so the batch is the transition actions followed by the
  entry actions.
\<close>

definition take :: "interpreter \<Rightarrow> node \<Rightarrow> transition \<Rightarrow> event \<Rightarrow> error + interpreter" where
  "take s sn t e =
     (case exec_actions (t_actions t) (ctx s) e of
        Inl x \<Rightarrow> Inl x
      | Inr (c, fx) \<Rightarrow>
          (case t_target t of
             None \<Rightarrow> Inr (s\<lparr>ctx := c, effects := effects s @ fx\<rparr>)
           | Some tg \<Rightarrow>
               enter
                 (entry_set t sn (configuration (active s)) (target_configuration tg)) e
                 (s\<lparr>active := leaf tg, ctx := c,
                    children :=
                      stop_all
                        (exit_set t sn (configuration (active s)) (target_configuration tg))
                        (children s),
                    effects := effects s @ fx\<rparr>)))"

text \<open>
  Modelled from the spec: eventless transitions (the interpreter is missing). The candidates
  under the key \<^verbatim>\<open>''\<close> of the active states are tried again after every transition, until
  none applies. In this configuration only \<open>validating\<close> and \<open>unknown\<close> have such candidates
  and none of their targets has one, which is why the loop ends.
\<close>

function settle ::
  "(machine_context \<Rightarrow> bool) \<Rightarrow> event \<Rightarrow> interpreter \<Rightarrow> error + interpreter"
where
  "settle vs e s =
     (case select vs (ctx s) e EV_null (configuration (active s)) of
        None \<Rightarrow> Inr s
      | Some (sn, t) \<Rightarrow>
          (case take s sn t e of
             Inl x \<Rightarrow> Inl x
           | Inr s' \<Rightarrow> settle vs e s'))"
  by pat_completeness auto
termination
proof (relation
    "measure (\<lambda>(vs, e, s). if active s = S_validating \<or> active s = S_unknown then 1 else 0)")
  show "wf (measure (\<lambda>(vs :: machine_context \<Rightarrow> bool, e :: event, s).
      if active s = S_validating \<or> active s = S_unknown then 1 else (0::nat)))"
    by simp
next
  fix vs :: "machine_context \<Rightarrow> bool" and e s x2 sn t s'
  assume sel: "select vs (ctx s) e EV_null (configuration (active s)) = Some x2"
    and x2: "(sn, t) = x2" and tk: "take s sn t e = Inr s'"
  have entered: "enter ns e' r = Inr r' \<Longrightarrow> active r' = active r" for ns e' r r'
    by (induction ns arbitrary: r)
       (auto simp: start_invocation_def split: sum.splits option.splits prod.splits)
  have taken: "active s' = (case t_target t of None \<Rightarrow> active s | Some tg \<Rightarrow> leaf tg)"
    using tk
    by (auto simp: take_def split: sum.splits option.splits prod.splits dest: entered)
  have "select vs (ctx s) e EV_null (configuration (active s)) = Some (sn, t)"
    using sel x2 by simp
  then have
    "(active s = S_validating \<and>
        (t_target t = Some S_loading \<or> t_target t = Some S_notFound)) \<or>
     (active s = S_unknown \<and>
        (t_target t = Some S_authenticated \<or> t_target t = Some S_unAuthenticated))"
    by (cases "active s")
       (auto simp: configuration_def candidates_def ancestors.simps split: if_splits)
  with taken
  show "((vs, e, s'), (vs, e, s)) \<in>
    measure (\<lambda>(vs, e, s). if active s = S_validating \<or> active s = S_unknown then 1 else 0)"
    by (auto simp: leaf_def initial_descendants.simps)
qed

declare settle.simps [simp del]

text \<open>
  Modelled from the spec: final states are terminal (the interpreter is missing). The machine
  has stopped when a final child of the root is active.
\<close>

definition stopped :: "interpreter \<Rightarrow> bool" where
  "stopped s =
     list_ex (\<lambda>n. final n \<and> parent n = Some S_community) (configuration (active s))"

text \<open>
  Modelled from the spec: processing one event (the interpreter is missing). Without an enabled
  candidate the event is dropped; otherwise the transition is taken and the eventless
  transitions are followed.
\<close>

definition deliver ::
  "(machine_context \<Rightarrow> bool) \<Rightarrow> interpreter \<Rightarrow> event \<Rightarrow> error + interpreter"
where
  "deliver vs s e =
     (case select vs (ctx s) e (event_type_of e) (configuration (active s)) of
        None \<Rightarrow> Inr s
      | Some (sn, t) \<Rightarrow>
          (case take s sn t e of
             Inl x \<Rightarrow> Inl x
           | Inr s' \<Rightarrow> settle vs e s'))"

text \<open>
  Modelled from the spec: \<^verbatim>\<open>send\<close> (the interpreter is missing). A stopped machine ignores the
  event; the settling of a promise is delivered only while the promise is in flight, and a
  promise settles once.
\<close>

definition send ::
  "(machine_context \<Rightarrow> bool) \<Rightarrow> interpreter \<Rightarrow> event \<Rightarrow> error + interpreter"
where
  "send vs s e =
     (if stopped s then Inr s
      else
        (case completion e of
           None \<Rightarrow> deliver vs s e
         | Some k \<Rightarrow>
             (if k \<in> set (children s)
              then deliver vs (s\<lparr>children := remove1 k (children s)\<rparr>) e
              else Inr s)))"

text \<open>
  Modelled from the spec: \<^verbatim>\<open>start\<close> (the interpreter is missing). The initial configuration is
  entered from the root and the eventless transitions are followed.
\<close>

definition start :: "(machine_context \<Rightarrow> bool) \<Rightarrow> string \<Rightarrow> error + interpreter" where
  "start vs sl =
     (case enter (rev (target_configuration S_community)) Init
             \<lparr>active = leaf S_community, ctx = initial_context sl, children = [],
              next_token = 0, effects = []\<rparr> of
        Inl x \<Rightarrow> Inl x
      | Inr s \<Rightarrow> settle vs Init s)"

text \<open>
  Modelled from the spec: events are processed one at a time, each to completion (the
  interpreter is missing); an exception reaches the caller of \<^verbatim>\<open>send\<close> and ends the run.
\<close>

fun run ::
  "(machine_context \<Rightarrow> bool) \<Rightarrow> interpreter \<Rightarrow> event list \<Rightarrow> error + interpreter"
where
  "run vs s [] = Inr s"
| "run vs s (e # es) =
     (case send vs s e of
        Inl x \<Rightarrow> Inl x
      | Inr s' \<Rightarrow> run vs s' es)"

text \<open>Starting a machine for a slug and sending it a sequence of events.\<close>

definition launch ::
  "(machine_context \<Rightarrow> bool) \<Rightarrow> string \<Rightarrow> event list \<Rightarrow> error + interpreter"
where
  "launch vs sl es = (case start vs sl of Inl x \<Rightarrow> Inl x | Inr s \<Rightarrow> run vs s es)"

text \<open>
  An instance of the missing slug guard for running examples: it rejects the empty slug and
  accepts every other one.
\<close>

definition nonempty_slug :: "machine_context \<Rightarrow> bool" where
  "nonempty_slug c = (slug c \<noteq> [])"

section \<open>Invariants of a running machine\<close>

text \<open>
  At most one invocation is in flight, that of the active leaf, and its promise is the last
  one created.
\<close>

definition in_flight :: "interpreter \<Rightarrow> bool" where
  "in_flight s =
     (case invoke (active s) of
        None \<Rightarrow> children s = []
      | Some i \<Rightarrow> children s = [(src i, next_token s - 1)] \<and> 0 < next_token s)"

text \<open>
  \<open>later s s'\<close>: promise numbers only grow from \<open>s\<close> to \<open>s'\<close>, and a promise in flight in \<open>s'\<close> was
  in flight in \<open>s\<close> or has been created since.
\<close>

definition later :: "interpreter \<Rightarrow> interpreter \<Rightarrow> bool" where
  "later s s' =
     (next_token s \<le> next_token s' \<and>
      (\<forall>k\<in>set (children s'). k \<in> set (children s) \<or> next_token s \<le> snd k))"

text \<open>
  Inside \<open>communityLoaded\<close> the entity has been stored and the follow actor in the context is
  the one spawned with it.
\<close>

definition entity_loaded :: "interpreter \<Rightarrow> bool" where
  "entity_loaded s =
     (S_communityLoaded \<in> set (configuration (active s)) \<longrightarrow>
      community (ctx s) \<noteq> None \<and>
      followMachineServices (ctx s) = Some (ActorRef FollowMachine (community (ctx s))))"

section \<open>The member machine: guards\<close>

text \<open>
  \<^verbatim>\<open>src/routes/members/machines/member.js\<close> holds the options of the member machine; its
  configuration (\<^verbatim>\<open>machines/profile\<close>) is not among the sources. The guards (lines 19-25) read
  \<^verbatim>\<open>event.data\<close> and \<^verbatim>\<open>context.isAuthenticated\<close>. The context has the fields the options use.
\<close>

record profile =
  profile_id :: string
  profileSlug :: string

record member_context =
  member_slug :: string
  member_profile :: "profile option"
  member_followMachineServices :: "actor_ref option"
  member_activitiesMachineServices :: "actor_ref option"
  member_isFollowing :: bool
  member_isAuthenticated :: bool

datatype member_event =
    Member_AUTHENTICATED bool
  | Member_FOLLOW
  | Done_queryProfile "profile option"
  | Done_member_queryMyFollowing "string list"
  | Done_member_toggleFollow bool
  | Member_error

fun member_data_is_null :: "member_event \<Rightarrow> bool" where
  "member_data_is_null (Done_queryProfile None) = True"
| "member_data_is_null e = False"

datatype member_guard =
    MG_profileFound | MG_profileNotFound | MG_isAuthenticated | MG_isUnAuthenticated

fun member_guards :: "member_guard \<Rightarrow> member_context \<Rightarrow> member_event \<Rightarrow> bool" where
  "member_guards MG_profileFound c e = (\<not> member_data_is_null e)"
| "member_guards MG_profileNotFound c e = member_data_is_null e"
| "member_guards MG_isAuthenticated c e = member_isAuthenticated c"
| "member_guards MG_isUnAuthenticated c e = member_isAuthenticated c"

section \<open>Evaluating the configuration\<close>

lemma ancestors_simps [simp]:
  "ancestors S_community = []"
  "ancestors S_validating = [S_community]"
  "ancestors S_loading = [S_community]"
  "ancestors S_communityLoaded = [S_community]"
  "ancestors S_notFound = [S_community]"
  "ancestors S_error = [S_community]"
  "ancestors S_unknown = [S_communityLoaded, S_community]"
  "ancestors S_authenticated = [S_communityLoaded, S_community]"
  "ancestors S_unAuthenticated = [S_communityLoaded, S_community]"
  "ancestors S_loadFollowing = [S_authenticated, S_communityLoaded, S_community]"
  "ancestors S_toggleFollow = [S_authenticated, S_communityLoaded, S_community]"
  "ancestors S_loaded = [S_authenticated, S_communityLoaded, S_community]"
  "ancestors S_authenticated_error = [S_authenticated, S_communityLoaded, S_community]"
  by (simp_all add: ancestors.simps)

lemma initial_descendants_simps [simp]:
  "initial_descendants S_community = [S_validating]"
  "initial_descendants S_validating = []"
  "initial_descendants S_loading = []"
  "initial_descendants S_communityLoaded = [S_unknown]"
  "initial_descendants S_notFound = []"
  "initial_descendants S_error = []"
  "initial_descendants S_unknown = []"
  "initial_descendants S_authenticated = [S_loadFollowing]"
  "initial_descendants S_unAuthenticated = []"
  "initial_descendants S_loadFollowing = []"
  "initial_descendants S_toggleFollow = []"
  "initial_descendants S_loaded = []"
  "initial_descendants S_authenticated_error = []"
  by (simp_all add: initial_descendants.simps)

lemma data_is_null_done [simp]: "data_is_null (Done_queryCommunity k d) = (d = None)"
  by (cases d) simp_all

lemmas interpreter_defs =
  start_def send_def deliver_def take_def stopped_def configuration_def
  target_configuration_def leaf_def candidates_def exit_set_def entry_set_def reentered_def
  start_invocation_def settle.simps initial_context_def launch_def

lemma send_stopped: "stopped s \<Longrightarrow> send vs s e = Inr s"
  by (simp add: send_def)

lemma run_stopped: "stopped s \<Longrightarrow> run vs s es = Inr s"
  by (induction es) (simp_all add: send_stopped)

section \<open>The guards of the two machines\<close>

text \<open>
  Claim C10. In both machine definitions the guard \<^verbatim>\<open>isUnAuthenticated\<close> is the same function
  as the guard \<^verbatim>\<open>isAuthenticated\<close>: on every context and event both return
  \<^verbatim>\<open>context.isAuthenticated\<close>, so \<^verbatim>\<open>isUnAuthenticated\<close> never holds where \<^verbatim>\<open>isAuthenticated\<close>
  fails.
\<close>

theorem unauthenticated_guard_is_authenticated_guard:
  "guards vs G_isUnAuthenticated = guards vs G_isAuthenticated \<and>
   guards vs G_isUnAuthenticated c e = isAuthenticated c \<and>
   guards vs G_isAuthenticated c e = isAuthenticated c \<and>
   member_guards MG_isUnAuthenticated = member_guards MG_isAuthenticated \<and>
   member_guards MG_isUnAuthenticated mc me = member_isAuthenticated mc \<and>
   member_guards MG_isAuthenticated mc me = member_isAuthenticated mc"
  by (simp add: fun_eq_iff)

section \<open>Validating the slug\<close>

text \<open>
  Claim C2. For every invalid slug the eventless transitions of \<open>validating\<close> take the machine
  to \<open>notFound\<close> and the query service is never started: the only effect is the navigation,
  whatever events follow. For every valid slug the machine is in \<open>loading\<close> and exactly one
  invocation, of the query by slug, has started.
\<close>

theorem validating_slug:
  "(vs (initial_context sl) \<longrightarrow>
      start vs sl =
        Inr \<lparr>active = S_loading, ctx = initial_context sl,
             children = [(Svc_queryCommunity, 0)], next_token = 1,
             effects = [Invoke Svc_queryCommunity 0 (Call_queryCommunityBySlug sl)]\<rparr>) \<and>
   (\<not> vs (initial_context sl) \<longrightarrow>
      launch vs sl es =
        Inr \<lparr>active = S_notFound, ctx = initial_context sl, children = [],
             next_token = 0, effects = [NavigateTo ''/not-found'']\<rparr>)"
proof (intro conjI impI)
  assume "vs (initial_context sl)"
  then show "start vs sl =
      Inr \<lparr>active = S_loading, ctx = initial_context sl,
           children = [(Svc_queryCommunity, 0)], next_token = 1,
           effects = [Invoke Svc_queryCommunity 0 (Call_queryCommunityBySlug sl)]\<rparr>"
    by (simp add: interpreter_defs)
next
  assume "\<not> vs (initial_context sl)"
  then have st: "start vs sl =
      Inr \<lparr>active = S_notFound, ctx = initial_context sl, children = [],
           next_token = 0, effects = [NavigateTo ''/not-found'']\<rparr>"
    by (simp add: interpreter_defs)
  have "stopped \<lparr>active = S_notFound, ctx = initial_context sl, children = [],
           next_token = 0, effects = [NavigateTo ''/not-found'']\<rparr>"
    by (simp add: stopped_def configuration_def)
  then show "launch vs sl es =
      Inr \<lparr>active = S_notFound, ctx = initial_context sl, children = [],
           next_token = 0, effects = [NavigateTo ''/not-found'']\<rparr>"
    by (simp add: launch_def st run_stopped)
qed

theorem validating_slug_witness:
  "nonempty_slug (initial_context ''acme-co'') \<and>
   start nonempty_slug ''acme-co'' =
     Inr \<lparr>active = S_loading, ctx = initial_context ''acme-co'',
          children = [(Svc_queryCommunity, 0)], next_token = 1,
          effects = [Invoke Svc_queryCommunity 0 (Call_queryCommunityBySlug ''acme-co'')]\<rparr> \<and>
   \<not> nonempty_slug (initial_context '''') \<and>
   launch nonempty_slug '''' [AUTHENTICATED True, FOLLOW] =
     Inr \<lparr>active = S_notFound, ctx = initial_context '''', children = [],
          next_token = 0, effects = [NavigateTo ''/not-found'']\<rparr>"
  using validating_slug [of nonempty_slug "''acme-co''"]
    validating_slug [of nonempty_slug "''''" "[AUTHENTICATED True, FOLLOW]"]
  by (simp add: nonempty_slug_def initial_context_def)


section \<open>Promises are numbered in the order of their creation\<close>

lemma later_refl: "later s s"
  by (simp add: later_def)

lemma later_trans: "later a b \<Longrightarrow> later b c \<Longrightarrow> later a c"
  unfolding later_def by (metis le_trans)

lemma stop_all_subset: "set (stop_all ns ch) \<subseteq> set ch"
proof (induction ns arbitrary: ch)
  case Nil
  then show ?case by simp
next
  case (Cons n ns)
  show ?case
  proof (cases "invoke n")
    case None
    then show ?thesis using Cons.IH [of ch] by simp
  next
    case (Some i)
    then show ?thesis using Cons.IH [of "filter (\<lambda>k. fst k \<noteq> src i) ch"] by auto
  qed
qed

lemma start_invocation_later: "start_invocation n s = Inr s' \<Longrightarrow> later s s'"
  by (auto simp: start_invocation_def later_def split: option.splits sum.splits)

lemma enter_later: "enter ns e s = Inr s' \<Longrightarrow> later s s'"
proof (induction ns arbitrary: s)
  case Nil
  then show ?case by (simp add: later_refl)
next
  case (Cons n ns)
  from Cons.prems obtain s1 c fx where
    s1: "start_invocation n s = Inr s1" and
    rest: "enter ns e (s1\<lparr>ctx := c, effects := effects s1 @ fx\<rparr>) = Inr s'"
    by (auto split: sum.splits prod.splits)
  have "later s (s1\<lparr>ctx := c, effects := effects s1 @ fx\<rparr>)"
    using start_invocation_later [OF s1] by (simp add: later_def)
  with Cons.IH [OF rest] show ?case by (rule later_trans [rotated])
qed

lemma take_later: "take s sn t e = Inr s' \<Longrightarrow> later s s'"
proof -
  assume tk: "take s sn t e = Inr s'"
  show ?thesis
  proof (cases "t_target t")
    case None
    with tk show ?thesis
      by (auto simp: take_def later_def split: sum.splits prod.splits)
  next
    case (Some tg)
    with tk obtain c fx ex en where
      en: "enter en e (s\<lparr>active := leaf tg, ctx := c,
              children := stop_all ex (children s), effects := effects s @ fx\<rparr>) = Inr s'"
      by (auto simp: take_def split: sum.splits prod.splits)
    have "later s (s\<lparr>active := leaf tg, ctx := c,
              children := stop_all ex (children s), effects := effects s @ fx\<rparr>)"
      using stop_all_subset [of ex "children s"] by (auto simp: later_def)
    with enter_later [OF en] show ?thesis by (rule later_trans [rotated])
  qed
qed

lemma settle_later: "settle vs e s = Inr s' \<Longrightarrow> later s s'"
proof (induction vs e s rule: settle.induct)
  case (1 vs e s)
  show ?case
  proof (cases "select vs (ctx s) e EV_null (configuration (active s))")
    case None
    with "1.prems" show ?thesis by (simp add: settle.simps later_refl)
  next
    case (Some x)
    obtain sn t where x: "x = (sn, t)" by (cases x)
    from "1.prems" Some x obtain s1 where
      tk: "take s sn t e = Inr s1" and st: "settle vs e s1 = Inr s'"
      by (auto simp: settle.simps [of vs e s] split: sum.splits)
    from "1.IH" [OF Some x [symmetric] tk st] take_later [OF tk]
    show ?thesis by (rule later_trans [rotated])
  qed
qed

lemma deliver_later: "deliver vs s e = Inr s' \<Longrightarrow> later s s'"
  by (auto simp: deliver_def later_refl split: option.splits sum.splits prod.splits
      dest!: take_later settle_later intro: later_trans)

lemma send_later: "send vs s e = Inr s' \<Longrightarrow> later s s'"
proof -
  assume sd: "send vs s e = Inr s'"
  have rm: "later s (s\<lparr>children := remove1 k (children s)\<rparr>)" for k
    using set_remove1_subset [of k "children s"] by (auto simp: later_def)
  from sd show ?thesis
    by (auto simp: send_def later_refl split: if_splits option.splits
        dest!: deliver_later intro: later_trans [OF rm])
qed

lemma run_later: "run vs s es = Inr s' \<Longrightarrow> later s s'"
  by (induction es arbitrary: s)
     (auto simp: later_refl split: sum.splits dest!: send_later intro: later_trans)

text \<open>A promise created earlier and no longer in flight never comes back.\<close>

lemma stale_stays_stale:
  assumes "later s s'" and "snd k < next_token s" and "k \<notin> set (children s)"
  shows "snd k < next_token s' \<and> k \<notin> set (children s')"
  using assms unfolding later_def by (metis le_trans not_le)

section \<open>The invocation in flight is that of the active state\<close>

lemma start_in_flight: "start vs sl = Inr s \<Longrightarrow> in_flight s"
  by (cases "vs (initial_context sl)") (auto simp: interpreter_defs in_flight_def)

lemma send_in_flight: "in_flight s \<Longrightarrow> send vs s e = Inr s' \<Longrightarrow> in_flight s'"
  by (cases "active s"; cases e)
     (auto simp: interpreter_defs in_flight_def split: if_splits option.splits)

lemma run_in_flight: "in_flight s \<Longrightarrow> run vs s es = Inr s' \<Longrightarrow> in_flight s'"
  by (induction es arbitrary: s) (auto split: sum.splits dest: send_in_flight)

lemma launch_in_flight: "launch vs sl es = Inr s \<Longrightarrow> in_flight s"
  by (auto simp: launch_def split: sum.splits dest: start_in_flight run_in_flight)

section \<open>Late completions\<close>

text \<open>
  Claim C5. A toggle-follow promise is in flight in a state \<open>s\<close> of a running machine; the
  machine then leaves \<open>toggleFollow\<close> (it is in another state in \<open>s1\<close>, the nested error state for
  instance) and goes on to any state \<open>s2\<close>. When the promise settles there, resolved or
  rejected, sending its completion changes nothing: no transition fires, no action runs, the
  context and \<^verbatim>\<open>isFollowing\<close> in it are as before.
\<close>

theorem late_toggle_completion_ignored:
  assumes "launch vs sl es = Inr s"
    and "(Svc_toggleFollow, k) \<in> set (children s)"
    and "run vs s es1 = Inr s1"
    and "active s1 \<noteq> S_toggleFollow"
    and "run vs s1 es2 = Inr s2"
    and "completion e = Some (Svc_toggleFollow, k)"
  shows "send vs s2 e = Inr s2"
proof -
  have inv: "in_flight s" using assms(1) by (rule launch_in_flight)
  have fresh: "k < next_token s"
    using inv assms(2) by (auto simp: in_flight_def split: option.splits)
  have "in_flight s1" using inv assms(3) by (rule run_in_flight)
  then have gone: "(Svc_toggleFollow, k) \<notin> set (children s1)"
    using assms(4) by (cases "active s1") (auto simp: in_flight_def)
  have "next_token s \<le> next_token s1"
    using run_later [OF assms(3)] by (simp add: later_def)
  with fresh have "k < next_token s1" by simp
  with gone have "(Svc_toggleFollow, k) \<notin> set (children s2)"
    using stale_stays_stale [OF run_later [OF assms(5)], of "(Svc_toggleFollow, k)"]
    by simp
  then show ?thesis using assms(6) by (simp add: send_def)
qed

theorem late_toggle_completion_ignored_witness:
  "launch nonempty_slug ''acme-co''
     [Done_queryCommunity 0 (Some \<lparr>community_id = ''c1''\<rparr>), AUTHENTICATED True, FOLLOW] =
   Inr \<lparr>active = S_toggleFollow,
        ctx = \<lparr>slug = ''acme-co'', community = Some \<lparr>community_id = ''c1''\<rparr>,
             followMachineServices =
               Some (ActorRef FollowMachine (Some \<lparr>community_id = ''c1''\<rparr>)),
             activitiesMachineServices =
               Some (ActorRef ActivitiesMachine (Some \<lparr>community_id = ''c1''\<rparr>)),
             isFollowing = False, isAuthenticated = True\<rparr>,
        children = [(Svc_toggleFollow, 2)], next_token = 3,
        effects =
          [Invoke Svc_queryCommunity 0 (Call_queryCommunityBySlug ''acme-co''),
           Spawn (ActorRef FollowMachine (Some \<lparr>community_id = ''c1''\<rparr>)),
           Spawn (ActorRef ActivitiesMachine (Some \<lparr>community_id = ''c1''\<rparr>)),
           Invoke Svc_queryMyFollowing 1 Call_queryMeFollowingCommunities,
           Invoke Svc_toggleFollow 2 (Call_toggleFollow ''c1'')]\<rparr> \<and>
   send nonempty_slug
     \<lparr>active = S_authenticated_error,
      ctx = \<lparr>slug = ''acme-co'', community = Some \<lparr>community_id = ''c1''\<rparr>,
             followMachineServices =
               Some (ActorRef FollowMachine (Some \<lparr>community_id = ''c1''\<rparr>)),
             activitiesMachineServices =
               Some (ActorRef ActivitiesMachine (Some \<lparr>community_id = ''c1''\<rparr>)),
             isFollowing = False, isAuthenticated = True\<rparr>,
      children = [], next_token = 3,
      effects =
          [Invoke Svc_queryCommunity 0 (Call_queryCommunityBySlug ''acme-co''),
           Spawn (ActorRef FollowMachine (Some \<lparr>community_id = ''c1''\<rparr>)),
           Spawn (ActorRef ActivitiesMachine (Some \<lparr>community_id = ''c1''\<rparr>)),
           Invoke Svc_queryMyFollowing 1 Call_queryMeFollowingCommunities,
           Invoke Svc_toggleFollow 2 (Call_toggleFollow ''c1''),
           Log \<lparr>slug = ''acme-co'', community = Some \<lparr>community_id = ''c1''\<rparr>,
                followMachineServices =
                  Some (ActorRef FollowMachine (Some \<lparr>community_id = ''c1''\<rparr>)),
                activitiesMachineServices =
                  Some (ActorRef ActivitiesMachine (Some \<lparr>community_id = ''c1''\<rparr>)),
                isFollowing = False, isAuthenticated = True\<rparr>
             (Error_invoke Svc_toggleFollow 2)]\<rparr>
     (Done_toggleFollow 2 True) =
   Inr \<lparr>active = S_authenticated_error,
      ctx = \<lparr>slug = ''acme-co'', community = Some \<lparr>community_id = ''c1''\<rparr>,
             followMachineServices =
               Some (ActorRef FollowMachine (Some \<lparr>community_id = ''c1''\<rparr>)),
             activitiesMachineServices =
               Some (ActorRef ActivitiesMachine (Some \<lparr>community_id = ''c1''\<rparr>)),
             isFollowing = False, isAuthenticated = True\<rparr>,
      children = [], next_token = 3,
      effects =
          [Invoke Svc_queryCommunity 0 (Call_queryCommunityBySlug ''acme-co''),
           Spawn (ActorRef FollowMachine (Some \<lparr>community_id = ''c1''\<rparr>)),
           Spawn (ActorRef ActivitiesMachine (Some \<lparr>community_id = ''c1''\<rparr>)),
           Invoke Svc_queryMyFollowing 1 Call_queryMeFollowingCommunities,
           Invoke Svc_toggleFollow 2 (Call_toggleFollow ''c1''),
           Log \<lparr>slug = ''acme-co'', community = Some \<lparr>community_id = ''c1''\<rparr>,
                followMachineServices =
                  Some (ActorRef FollowMachine (Some \<lparr>community_id = ''c1''\<rparr>)),
                activitiesMachineServices =
                  Some (ActorRef ActivitiesMachine (Some \<lparr>community_id = ''c1''\<rparr>)),
                isFollowing = False, isAuthenticated = True\<rparr>
             (Error_invoke Svc_toggleFollow 2)]\<rparr>"
  (is "launch _ _ ?es = Inr ?s \<and> send _ ?s1 ?e = Inr ?s1")
proof -
  have a: "launch nonempty_slug ''acme-co'' ?es = Inr ?s"
    by (simp add: interpreter_defs nonempty_slug_def)
  have b: "(Svc_toggleFollow, 2) \<in> set (children ?s)" by simp
  have c: "run nonempty_slug ?s [Error_invoke Svc_toggleFollow 2] = Inr ?s1"
    by (simp add: interpreter_defs)
  have d: "active ?s1 \<noteq> S_toggleFollow" by simp
  have e: "run nonempty_slug ?s1 [] = Inr ?s1" by simp
  have f: "completion ?e = Some (Svc_toggleFollow, 2)" by simp
  from a late_toggle_completion_ignored [OF a b c d e f] show ?thesis by simp
qed


section \<open>Loading the community\<close>

lemma loading_done:
  assumes "active s = S_loading" and "(Svc_queryCommunity, k) \<in> set (children s)"
  shows "\<exists>s'. send vs s (Done_queryCommunity k d) = Inr s' \<and>
     active s' =
       (case d of
          None \<Rightarrow> S_notFound
        | Some c \<Rightarrow> if isAuthenticated (ctx s) then S_loadFollowing else S_unknown)"
  using assms by (cases d) (simp_all add: interpreter_defs)

text \<open>
  Claim C1. The query of a machine started with a valid slug resolves to the entity with id
  \<^verbatim>\<open>c1\<close> while \<^verbatim>\<open>context.isAuthenticated\<close> is false. The claim has the machine settle in
  \<open>loaded.unauthenticated\<close>; it stays in \<open>loaded.unknown\<close>, because the guard
  \<^verbatim>\<open>isUnAuthenticated\<close> returns \<^verbatim>\<open>context.isAuthenticated\<close>.
\<close>

theorem found_unauthenticated_stays_unknown:
  "launch nonempty_slug ''acme-co''
     [Done_queryCommunity 0 (Some \<lparr>community_id = ''c1''\<rparr>)] =
   Inr \<lparr>active = S_unknown,
        ctx = \<lparr>slug = ''acme-co'', community = Some \<lparr>community_id = ''c1''\<rparr>,
             followMachineServices =
               Some (ActorRef FollowMachine (Some \<lparr>community_id = ''c1''\<rparr>)),
             activitiesMachineServices =
               Some (ActorRef ActivitiesMachine (Some \<lparr>community_id = ''c1''\<rparr>)),
             isFollowing = False, isAuthenticated = False\<rparr>,
        children = [], next_token = 1,
        effects =
          [Invoke Svc_queryCommunity 0 (Call_queryCommunityBySlug ''acme-co''),
           Spawn (ActorRef FollowMachine (Some \<lparr>community_id = ''c1''\<rparr>)),
           Spawn (ActorRef ActivitiesMachine (Some \<lparr>community_id = ''c1''\<rparr>))]\<rparr>"
  by (simp add: interpreter_defs nonempty_slug_def)

text \<open>
  Claim C9. The batch of the \<open>loading\<close> transition taken when the entity is found runs
  \<^verbatim>\<open>queryCommunitySuccess\<close>, \<^verbatim>\<open>createFollowMachineServices\<close> and \<^verbatim>\<open>createActivityMachineServices\<close>
  in this order, and the two spawning actions see the entity the first one has just stored:
  both child machines are spawned with it, whatever \<^verbatim>\<open>context.community\<close> held before.
\<close>

theorem spawned_with_stored_entity:
  assumes "active s = S_loading" and "(Svc_queryCommunity, k) \<in> set (children s)"
  shows "\<exists>s' fx. send vs s (Done_queryCommunity k (Some cm)) = Inr s' \<and>
     community (ctx s') = Some cm \<and>
     followMachineServices (ctx s') = Some (ActorRef FollowMachine (Some cm)) \<and>
     activitiesMachineServices (ctx s') = Some (ActorRef ActivitiesMachine (Some cm)) \<and>
     effects s' =
       effects s @
       [Spawn (ActorRef FollowMachine (Some cm)),
        Spawn (ActorRef ActivitiesMachine (Some cm))] @ fx"
  using assms by (simp add: interpreter_defs)

theorem spawned_with_stored_entity_witness:
  "\<exists>s' fx.
     send nonempty_slug
       \<lparr>active = S_loading, ctx = initial_context ''acme-co'',
        children = [(Svc_queryCommunity, 0)], next_token = 1,
        effects = [Invoke Svc_queryCommunity 0 (Call_queryCommunityBySlug ''acme-co'')]\<rparr>
       (Done_queryCommunity 0 (Some \<lparr>community_id = ''c1''\<rparr>)) = Inr s' \<and>
     community (ctx s') = Some \<lparr>community_id = ''c1''\<rparr> \<and>
     followMachineServices (ctx s') =
       Some (ActorRef FollowMachine (Some \<lparr>community_id = ''c1''\<rparr>)) \<and>
     activitiesMachineServices (ctx s') =
       Some (ActorRef ActivitiesMachine (Some \<lparr>community_id = ''c1''\<rparr>)) \<and>
     effects s' =
       [Invoke Svc_queryCommunity 0 (Call_queryCommunityBySlug ''acme-co'')] @
       [Spawn (ActorRef FollowMachine (Some \<lparr>community_id = ''c1''\<rparr>)),
        Spawn (ActorRef ActivitiesMachine (Some \<lparr>community_id = ''c1''\<rparr>))] @ fx"
  using spawned_with_stored_entity
    [of "\<lparr>active = S_loading, ctx = initial_context ''acme-co'',
        children = [(Svc_queryCommunity, 0)], next_token = 1,
        effects = [Invoke Svc_queryCommunity 0 (Call_queryCommunityBySlug ''acme-co'')]\<rparr>"
      0 nonempty_slug "\<lparr>community_id = ''c1''\<rparr>"]
  by simp

section \<open>The AUTHENTICATED event\<close>

lemma authenticated_event_settles:
  assumes "S_communityLoaded \<in> set (ancestors (active s))"
  shows "\<exists>s'. send vs s (AUTHENTICATED b) = Inr s' \<and>
     isAuthenticated (ctx s') = b \<and>
     active s' = (if b then S_loadFollowing else S_unknown)"
  using assms by (cases "active s") (simp_all add: interpreter_defs)

lemma authenticated_event_idempotent:
  assumes "S_communityLoaded \<in> set (ancestors (active s))"
    and "send vs s (AUTHENTICATED b) = Inr s1"
    and "send vs s1 (AUTHENTICATED b) = Inr s2"
  shows "active s2 = active s1 \<and> ctx s2 = ctx s1"
  using assms by (cases "active s") (auto simp: interpreter_defs split: if_splits)

text \<open>
  Claim C3. The machine is in \<open>loaded.authenticated.loaded\<close> and receives
  \<^verbatim>\<open>AUTHENTICATED\<close> with status false. The claim has it settle in the branch of the new status,
  \<open>loaded.unauthenticated\<close>; the context takes the status and the machine stays in
  \<open>loaded.unknown\<close>, because the guard \<^verbatim>\<open>isUnAuthenticated\<close> returns \<^verbatim>\<open>context.isAuthenticated\<close>.
\<close>

theorem authenticated_false_stays_unknown:
  "launch nonempty_slug ''acme-co''
     [Done_queryCommunity 0 (Some \<lparr>community_id = ''c1''\<rparr>), AUTHENTICATED True,
      Done_queryMyFollowing 1 [''c1'', ''c2''], AUTHENTICATED False] =
   Inr \<lparr>active = S_unknown,
        ctx = \<lparr>slug = ''acme-co'', community = Some \<lparr>community_id = ''c1''\<rparr>,
             followMachineServices =
               Some (ActorRef FollowMachine (Some \<lparr>community_id = ''c1''\<rparr>)),
             activitiesMachineServices =
               Some (ActorRef ActivitiesMachine (Some \<lparr>community_id = ''c1''\<rparr>)),
             isFollowing = True, isAuthenticated = False\<rparr>,
        children = [], next_token = 2,
        effects =
          [Invoke Svc_queryCommunity 0 (Call_queryCommunityBySlug ''acme-co''),
           Spawn (ActorRef FollowMachine (Some \<lparr>community_id = ''c1''\<rparr>)),
           Spawn (ActorRef ActivitiesMachine (Some \<lparr>community_id = ''c1''\<rparr>)),
           Invoke Svc_queryMyFollowing 1 Call_queryMeFollowingCommunities]\<rparr>"
  by (simp add: interpreter_defs nonempty_slug_def)

section \<open>Following\<close>

text \<open>
  Claim C7. A machine started with a valid slug whose query resolves to an entity with id
  \<^verbatim>\<open>c1\<close>, that is told that the user is authenticated (after the query has resolved, or
  before), and whose my-following query resolves to the list of \<^verbatim>\<open>c1\<close> and \<^verbatim>\<open>c2\<close>, ends in
  \<open>loaded.authenticated.loaded\<close> with \<^verbatim>\<open>isFollowing\<close> true.
\<close>

theorem following_scenario:
  assumes "vs (initial_context sl)" and "community_id c = ''c1''"
  shows "(\<exists>s. launch vs sl
            [Done_queryCommunity 0 (Some c), AUTHENTICATED True,
             Done_queryMyFollowing 1 [''c1'', ''c2'']] = Inr s \<and>
          active s = S_loaded \<and> isFollowing (ctx s)) \<and>
     (\<exists>s. launch vs sl
            [AUTHENTICATED True, Done_queryCommunity 0 (Some c),
             Done_queryMyFollowing 1 [''c1'', ''c2'']] = Inr s \<and>
          active s = S_loaded \<and> isFollowing (ctx s))"
  using assms by (simp add: interpreter_defs)

theorem following_scenario_witness:
  "nonempty_slug (initial_context ''acme-co'') \<and>
   community_id \<lparr>community_id = ''c1''\<rparr> = ''c1'' \<and>
   (\<exists>s. launch nonempty_slug ''acme-co''
            [Done_queryCommunity 0 (Some \<lparr>community_id = ''c1''\<rparr>), AUTHENTICATED True,
             Done_queryMyFollowing 1 [''c1'', ''c2'']] = Inr s \<and>
          active s = S_loaded \<and> isFollowing (ctx s))"
proof -
  have a: "nonempty_slug (initial_context ''acme-co'')"
    by (simp add: nonempty_slug_def initial_context_def)
  have b: "community_id \<lparr>community_id = ''c1''\<rparr> = ''c1''" by simp
  from a b
    following_scenario [of nonempty_slug "''acme-co''" "\<lparr>community_id = ''c1''\<rparr>"]
  show ?thesis by blast
qed

lemma start_entity_loaded: "start vs sl = Inr s \<Longrightarrow> entity_loaded s"
  by (cases "vs (initial_context sl)") (auto simp: interpreter_defs entity_loaded_def)

lemma send_entity_loaded_cases:
  "entity_loaded s \<Longrightarrow>
   (case send vs s e of Inl x \<Rightarrow> True | Inr s' \<Rightarrow> entity_loaded s')"
  by (cases "active s"; cases e)
     (simp_all add: interpreter_defs entity_loaded_def split: option.splits)

lemma send_entity_loaded: "entity_loaded s \<Longrightarrow> send vs s e = Inr s' \<Longrightarrow> entity_loaded s'"
  using send_entity_loaded_cases [of s vs e] by simp

lemma run_entity_loaded: "entity_loaded s \<Longrightarrow> run vs s es = Inr s' \<Longrightarrow> entity_loaded s'"
  by (induction es arbitrary: s) (auto split: sum.splits dest: send_entity_loaded)

lemma launch_entity_loaded: "launch vs sl es = Inr s \<Longrightarrow> entity_loaded s"
  by (auto simp: launch_def split: sum.splits dest: start_entity_loaded run_entity_loaded)

text \<open>
  Claim C6. A running machine is in \<open>loaded.authenticated.loaded\<close>; \<^verbatim>\<open>FOLLOW\<close> is sent and the
  toggle-follow promise it starts resolves to false. The machine is back in
  \<open>loaded.authenticated.loaded\<close>, the context differs only in \<^verbatim>\<open>isFollowing\<close>, which is false,
  and the two effects are the call of the mutation with the id of the entity and one
  \<^verbatim>\<open>REFRESH\<close> sent to the follow actor that was spawned with the entity.
\<close>

theorem toggle_follow_resolves_false:
  assumes "launch vs sl es = Inr s" and "active s = S_loaded"
  shows "\<exists>s' c. community (ctx s) = Some c \<and>
     run vs s [FOLLOW, Done_toggleFollow (next_token s) False] = Inr s' \<and>
     active s' = S_loaded \<and> ctx s' = (ctx s)\<lparr>isFollowing := False\<rparr> \<and>
     effects s' =
       effects s @
       [Invoke Svc_toggleFollow (next_token s) (Call_toggleFollow (community_id c)),
        SendTo (Some (ActorRef FollowMachine (Some c))) ''REFRESH'']"
proof -
  from launch_entity_loaded [OF assms(1)] assms(2) obtain c where
    c: "community (ctx s) = Some c"
    and a: "followMachineServices (ctx s) = Some (ActorRef FollowMachine (Some c))"
    by (auto simp: entity_loaded_def configuration_def)
  with assms(2) show ?thesis by (simp add: interpreter_defs)
qed

theorem toggle_follow_resolves_false_witness:
  "launch nonempty_slug ''acme-co''
     [Done_queryCommunity 0 (Some \<lparr>community_id = ''c1''\<rparr>), AUTHENTICATED True,
      Done_queryMyFollowing 1 [''c1'', ''c2'']] =
   Inr \<lparr>active = S_loaded,
        ctx = \<lparr>slug = ''acme-co'', community = Some \<lparr>community_id = ''c1''\<rparr>,
             followMachineServices =
               Some (ActorRef FollowMachine (Some \<lparr>community_id = ''c1''\<rparr>)),
             activitiesMachineServices =
               Some (ActorRef ActivitiesMachine (Some \<lparr>community_id = ''c1''\<rparr>)),
             isFollowing = True, isAuthenticated = True\<rparr>,
        children = [], next_token = 2,
        effects =
          [Invoke Svc_queryCommunity 0 (Call_queryCommunityBySlug ''acme-co''),
           Spawn (ActorRef FollowMachine (Some \<lparr>community_id = ''c1''\<rparr>)),
           Spawn (ActorRef ActivitiesMachine (Some \<lparr>community_id = ''c1''\<rparr>)),
           Invoke Svc_queryMyFollowing 1 Call_queryMeFollowingCommunities]\<rparr> \<and>
   (\<exists>s'. run nonempty_slug
        \<lparr>active = S_loaded,
         ctx = \<lparr>slug = ''acme-co'', community = Some \<lparr>community_id = ''c1''\<rparr>,
             followMachineServices =
               Some (ActorRef FollowMachine (Some \<lparr>community_id = ''c1''\<rparr>)),
             activitiesMachineServices =
               Some (ActorRef ActivitiesMachine (Some \<lparr>community_id = ''c1''\<rparr>)),
             isFollowing = True, isAuthenticated = True\<rparr>,
         children = [], next_token = 2,
         effects =
          [Invoke Svc_queryCommunity 0 (Call_queryCommunityBySlug ''acme-co''),
           Spawn (ActorRef FollowMachine (Some \<lparr>community_id = ''c1''\<rparr>)),
           Spawn (ActorRef ActivitiesMachine (Some \<lparr>community_id = ''c1''\<rparr>)),
           Invoke Svc_queryMyFollowing 1 Call_queryMeFollowingCommunities]\<rparr>
        [FOLLOW, Done_toggleFollow 2 False] = Inr s' \<and>
      active s' = S_loaded \<and> \<not> isFollowing (ctx s') \<and>
      effects s' =
          [Invoke Svc_queryCommunity 0 (Call_queryCommunityBySlug ''acme-co''),
           Spawn (ActorRef FollowMachine (Some \<lparr>community_id = ''c1''\<rparr>)),
           Spawn (ActorRef ActivitiesMachine (Some \<lparr>community_id = ''c1''\<rparr>)),
           Invoke Svc_queryMyFollowing 1 Call_queryMeFollowingCommunities,
           Invoke Svc_toggleFollow 2 (Call_toggleFollow ''c1''),
           SendTo (Some (ActorRef FollowMachine (Some \<lparr>community_id = ''c1''\<rparr>)))
             ''REFRESH''])"
  (is "launch _ _ _ = Inr ?s \<and> _")
proof -
  have a: "launch nonempty_slug ''acme-co''
     [Done_queryCommunity 0 (Some \<lparr>community_id = ''c1''\<rparr>), AUTHENTICATED True,
      Done_queryMyFollowing 1 [''c1'', ''c2'']] = Inr ?s"
    by (simp add: interpreter_defs nonempty_slug_def)
  have b: "active ?s = S_loaded" by simp
  from a toggle_follow_resolves_false [OF a b] show ?thesis
    by auto
qed


section \<open>The FOLLOW event\<close>

text \<open>
  Claim C4, as amended. \<^verbatim>\<open>FOLLOW\<close> is declared on the compound state \<open>loaded.authenticated\<close>, not
  on its substate \<open>loaded\<close>. In every atomic state other than \<open>loaded.authenticated.loaded\<close>,
  \<open>loaded.authenticated.loadFollowing\<close> and \<open>loaded.authenticated.error\<close>, sending \<^verbatim>\<open>FOLLOW\<close>
  changes nothing: the state configuration, the context, the invocations in flight and the
  effects are as before.
\<close>

theorem follow_is_dropped:
  assumes "initial (active s) = None"
    and "active s \<noteq> S_loaded"
    and "active s \<noteq> S_loadFollowing"
    and "active s \<noteq> S_authenticated_error"
  shows "send vs s FOLLOW = Inr s"
  using assms by (cases "active s") (simp_all add: interpreter_defs)

theorem follow_is_dropped_witness:
  "send nonempty_slug
     \<lparr>active = S_toggleFollow,
      ctx = \<lparr>slug = ''acme-co'', community = Some \<lparr>community_id = ''c1''\<rparr>,
             followMachineServices =
               Some (ActorRef FollowMachine (Some \<lparr>community_id = ''c1''\<rparr>)),
             activitiesMachineServices =
               Some (ActorRef ActivitiesMachine (Some \<lparr>community_id = ''c1''\<rparr>)),
             isFollowing = True, isAuthenticated = True\<rparr>,
      children = [(Svc_toggleFollow, 2)], next_token = 3,
      effects =
          [Invoke Svc_queryCommunity 0 (Call_queryCommunityBySlug ''acme-co''),
           Spawn (ActorRef FollowMachine (Some \<lparr>community_id = ''c1''\<rparr>)),
           Spawn (ActorRef ActivitiesMachine (Some \<lparr>community_id = ''c1''\<rparr>)),
           Invoke Svc_queryMyFollowing 1 Call_queryMeFollowingCommunities,
           Invoke Svc_toggleFollow 2 (Call_toggleFollow ''c1'')]\<rparr>
     FOLLOW =
   Inr \<lparr>active = S_toggleFollow,
      ctx = \<lparr>slug = ''acme-co'', community = Some \<lparr>community_id = ''c1''\<rparr>,
             followMachineServices =
               Some (ActorRef FollowMachine (Some \<lparr>community_id = ''c1''\<rparr>)),
             activitiesMachineServices =
               Some (ActorRef ActivitiesMachine (Some \<lparr>community_id = ''c1''\<rparr>)),
             isFollowing = True, isAuthenticated = True\<rparr>,
      children = [(Svc_toggleFollow, 2)], next_token = 3,
      effects =
          [Invoke Svc_queryCommunity 0 (Call_queryCommunityBySlug ''acme-co''),
           Spawn (ActorRef FollowMachine (Some \<lparr>community_id = ''c1''\<rparr>)),
           Spawn (ActorRef ActivitiesMachine (Some \<lparr>community_id = ''c1''\<rparr>)),
           Invoke Svc_queryMyFollowing 1 Call_queryMeFollowingCommunities,
           Invoke Svc_toggleFollow 2 (Call_toggleFollow ''c1'')]\<rparr> \<and>
   send nonempty_slug
     \<lparr>active = S_loading, ctx = initial_context ''acme-co'',
      children = [(Svc_queryCommunity, 0)], next_token = 1,
      effects = [Invoke Svc_queryCommunity 0 (Call_queryCommunityBySlug ''acme-co'')]\<rparr>
     FOLLOW =
   Inr \<lparr>active = S_loading, ctx = initial_context ''acme-co'',
      children = [(Svc_queryCommunity, 0)], next_token = 1,
      effects = [Invoke Svc_queryCommunity 0 (Call_queryCommunityBySlug ''acme-co'')]\<rparr>"
  (is "send _ ?s _ = Inr ?s \<and> send _ ?r _ = Inr ?r")
proof -
  have s: "initial (active ?s) = None" "active ?s \<noteq> S_loaded"
    "active ?s \<noteq> S_loadFollowing" "active ?s \<noteq> S_authenticated_error"
    by simp_all
  have r: "initial (active ?r) = None" "active ?r \<noteq> S_loaded"
    "active ?r \<noteq> S_loadFollowing" "active ?r \<noteq> S_authenticated_error"
    by simp_all
  from follow_is_dropped [OF s, of nonempty_slug] follow_is_dropped [OF r, of nonempty_slug]
  show ?thesis by (rule conjI)
qed

text \<open>
  The claim as stated fails in \<open>loaded.authenticated.loadFollowing\<close>: there \<^verbatim>\<open>FOLLOW\<close> takes the
  machine to \<open>toggleFollow\<close> and starts the toggle-follow invocation.
\<close>

theorem follow_accepted_in_loadFollowing:
  "launch nonempty_slug ''acme-co''
     [Done_queryCommunity 0 (Some \<lparr>community_id = ''c1''\<rparr>), AUTHENTICATED True] =
   Inr \<lparr>active = S_loadFollowing,
        ctx = \<lparr>slug = ''acme-co'', community = Some \<lparr>community_id = ''c1''\<rparr>,
             followMachineServices =
               Some (ActorRef FollowMachine (Some \<lparr>community_id = ''c1''\<rparr>)),
             activitiesMachineServices =
               Some (ActorRef ActivitiesMachine (Some \<lparr>community_id = ''c1''\<rparr>)),
             isFollowing = False, isAuthenticated = True\<rparr>,
        children = [(Svc_queryMyFollowing, 1)], next_token = 2,
        effects =
          [Invoke Svc_queryCommunity 0 (Call_queryCommunityBySlug ''acme-co''),
           Spawn (ActorRef FollowMachine (Some \<lparr>community_id = ''c1''\<rparr>)),
           Spawn (ActorRef ActivitiesMachine (Some \<lparr>community_id = ''c1''\<rparr>)),
           Invoke Svc_queryMyFollowing 1 Call_queryMeFollowingCommunities]\<rparr> \<and>
   send nonempty_slug
     \<lparr>active = S_loadFollowing,
      ctx = \<lparr>slug = ''acme-co'', community = Some \<lparr>community_id = ''c1''\<rparr>,
             followMachineServices =
               Some (ActorRef FollowMachine (Some \<lparr>community_id = ''c1''\<rparr>)),
             activitiesMachineServices =
               Some (ActorRef ActivitiesMachine (Some \<lparr>community_id = ''c1''\<rparr>)),
             isFollowing = False, isAuthenticated = True\<rparr>,
      children = [(Svc_queryMyFollowing, 1)], next_token = 2,
      effects =
          [Invoke Svc_queryCommunity 0 (Call_queryCommunityBySlug ''acme-co''),
           Spawn (ActorRef FollowMachine (Some \<lparr>community_id = ''c1''\<rparr>)),
           Spawn (ActorRef ActivitiesMachine (Some \<lparr>community_id = ''c1''\<rparr>)),
           Invoke Svc_queryMyFollowing 1 Call_queryMeFollowingCommunities]\<rparr>
     FOLLOW =
   Inr \<lparr>active = S_toggleFollow,
      ctx = \<lparr>slug = ''acme-co'', community = Some \<lparr>community_id = ''c1''\<rparr>,
             followMachineServices =
               Some (ActorRef FollowMachine (Some \<lparr>community_id = ''c1''\<rparr>)),
             activitiesMachineServices =
               Some (ActorRef ActivitiesMachine (Some \<lparr>community_id = ''c1''\<rparr>)),
             isFollowing = False, isAuthenticated = True\<rparr>,
      children = [(Svc_toggleFollow, 2)], next_token = 3,
      effects =
          [Invoke Svc_queryCommunity 0 (Call_queryCommunityBySlug ''acme-co''),
           Spawn (ActorRef FollowMachine (Some \<lparr>community_id = ''c1''\<rparr>)),
           Spawn (ActorRef ActivitiesMachine (Some \<lparr>community_id = ''c1''\<rparr>)),
           Invoke Svc_queryMyFollowing 1 Call_queryMeFollowingCommunities,
           Invoke Svc_toggleFollow 2 (Call_toggleFollow ''c1'')]\<rparr>"
  by (simp add: interpreter_defs nonempty_slug_def)

section \<open>Final states\<close>

text \<open>
  Claim C8, as amended. The state nodes \<open>notFound\<close>, \<open>error\<close> and \<open>loaded.authenticated.error\<close>
  are final and offer no transition for any event. Once the machine is in the top-level
  \<open>notFound\<close> or \<open>error\<close> it has stopped: every event leaves it as it is. A step that enters
  one of the three states has exactly one effect: the navigation to \<^verbatim>\<open>/not-found\<close> for
  \<open>notFound\<close>, one call of \<^verbatim>\<open>log\<close> with the context and the event for the two error states.
\<close>

theorem final_states:
  "final S_notFound \<and> final S_error \<and> final S_authenticated_error \<and>
   candidates S_notFound et = [] \<and> candidates S_error et = [] \<and>
   candidates S_authenticated_error et = [] \<and>
   (active s = S_notFound \<or> active s = S_error \<longrightarrow> send vs s e = Inr s) \<and>
   (send vs s e = Inr s' \<and> active s' \<noteq> active s \<longrightarrow>
      (active s' = S_notFound \<longrightarrow> effects s' = effects s @ [NavigateTo ''/not-found'']) \<and>
      (active s' = S_error \<or> active s' = S_authenticated_error \<longrightarrow>
         effects s' = effects s @ [Log (ctx s') e]))"
proof -
  have stop: "active s = S_notFound \<or> active s = S_error \<longrightarrow> send vs s e = Inr s"
    by (auto simp: send_def stopped_def configuration_def)
  have enter: "(active s' = S_notFound \<longrightarrow>
        effects s' = effects s @ [NavigateTo ''/not-found'']) \<and>
      (active s' = S_error \<or> active s' = S_authenticated_error \<longrightarrow>
         effects s' = effects s @ [Log (ctx s') e])"
    if "send vs s e = Inr s'" and "active s' \<noteq> active s"
    using that
    by (cases "active s"; cases e)
       (auto simp: interpreter_defs split: if_splits option.splits)
  have nodes: "final S_notFound \<and> final S_error \<and> final S_authenticated_error \<and>
      candidates S_notFound et = [] \<and> candidates S_error et = [] \<and>
      candidates S_authenticated_error et = []"
    by (simp add: candidates_def)
  from nodes stop enter show ?thesis by blast
qed

theorem final_states_witness:
  "send nonempty_slug
     \<lparr>active = S_notFound, ctx = initial_context '''', children = [], next_token = 0,
      effects = [NavigateTo ''/not-found'']\<rparr>
     (AUTHENTICATED True) =
   Inr \<lparr>active = S_notFound, ctx = initial_context '''', children = [], next_token = 0,
      effects = [NavigateTo ''/not-found'']\<rparr> \<and>
   effects
     \<lparr>active = S_notFound, ctx = initial_context ''acme-co'', children = [], next_token = 1,
      effects = [Invoke Svc_queryCommunity 0 (Call_queryCommunityBySlug ''acme-co''),
                 NavigateTo ''/not-found'']\<rparr> =
   effects
     \<lparr>active = S_loading, ctx = initial_context ''acme-co'',
      children = [(Svc_queryCommunity, 0)], next_token = 1,
      effects = [Invoke Svc_queryCommunity 0 (Call_queryCommunityBySlug ''acme-co'')]\<rparr> @
   [NavigateTo ''/not-found''] \<and>
   effects
     \<lparr>active = S_error, ctx = initial_context ''acme-co'', children = [], next_token = 1,
      effects = [Invoke Svc_queryCommunity 0 (Call_queryCommunityBySlug ''acme-co''),
                 Log (initial_context ''acme-co'') (Error_invoke Svc_queryCommunity 0)]\<rparr> =
   effects
     \<lparr>active = S_loading, ctx = initial_context ''acme-co'',
      children = [(Svc_queryCommunity, 0)], next_token = 1,
      effects = [Invoke Svc_queryCommunity 0 (Call_queryCommunityBySlug ''acme-co'')]\<rparr> @
   [Log (initial_context ''acme-co'') (Error_invoke Svc_queryCommunity 0)]"
  (is "send _ ?n _ = Inr ?n \<and> effects ?nf = effects ?l @ _ \<and> effects ?er = effects ?l @ _")
proof -
  have a: "active ?n = S_notFound \<or> active ?n = S_error" by simp
  have b: "send nonempty_slug ?l (Done_queryCommunity 0 None) = Inr ?nf \<and>
      active ?nf \<noteq> active ?l"
    by (simp add: interpreter_defs)
  have b': "active ?nf = S_notFound" by simp
  have c: "send nonempty_slug ?l (Error_invoke Svc_queryCommunity 0) = Inr ?er \<and>
      active ?er \<noteq> active ?l"
    by (simp add: interpreter_defs)
  have c': "active ?er = S_error \<or> active ?er = S_authenticated_error" by simp
  have 1: "send nonempty_slug ?n (AUTHENTICATED True) = Inr ?n"
    using final_states [of EV_null ?n nonempty_slug "AUTHENTICATED True"] a by blast
  have 2: "effects ?nf = effects ?l @ [NavigateTo ''/not-found'']"
    using final_states [of EV_null ?l nonempty_slug "Done_queryCommunity 0 None" ?nf] b b'
    by blast
  have 3: "effects ?er =
      effects ?l @ [Log (ctx ?er) (Error_invoke Svc_queryCommunity 0)]"
    using final_states
      [of EV_null ?l nonempty_slug "Error_invoke Svc_queryCommunity 0" ?er] c c'
    by blast
  from 1 2 3 show ?thesis by simp
qed

text \<open>
  The claim as stated fails for the nested \<open>loaded.authenticated.error\<close>: the machine has not
  stopped there, and \<^verbatim>\<open>FOLLOW\<close>, declared on \<open>loaded.authenticated\<close>, is still processed. It
  takes the machine out of the final state into \<open>toggleFollow\<close> and starts an invocation.
\<close>

theorem nested_error_still_takes_follow:
  "launch nonempty_slug ''acme-co''
     [Done_queryCommunity 0 (Some \<lparr>community_id = ''c1''\<rparr>), AUTHENTICATED True,
      Error_invoke Svc_queryMyFollowing 1] =
   Inr \<lparr>active = S_authenticated_error,
        ctx = \<lparr>slug = ''acme-co'', community = Some \<lparr>community_id = ''c1''\<rparr>,
             followMachineServices =
               Some (ActorRef FollowMachine (Some \<lparr>community_id = ''c1''\<rparr>)),
             activitiesMachineServices =
               Some (ActorRef ActivitiesMachine (Some \<lparr>community_id = ''c1''\<rparr>)),
             isFollowing = False, isAuthenticated = True\<rparr>,
        children = [], next_token = 2,
        effects =
          [Invoke Svc_queryCommunity 0 (Call_queryCommunityBySlug ''acme-co''),
           Spawn (ActorRef FollowMachine (Some \<lparr>community_id = ''c1''\<rparr>)),
           Spawn (ActorRef ActivitiesMachine (Some \<lparr>community_id = ''c1''\<rparr>)),
           Invoke Svc_queryMyFollowing 1 Call_queryMeFollowingCommunities,
           Log \<lparr>slug = ''acme-co'', community = Some \<lparr>community_id = ''c1''\<rparr>,
                followMachineServices =
                  Some (ActorRef FollowMachine (Some \<lparr>community_id = ''c1''\<rparr>)),
                activitiesMachineServices =
                  Some (ActorRef ActivitiesMachine (Some \<lparr>community_id = ''c1''\<rparr>)),
                isFollowing = False, isAuthenticated = True\<rparr>
             (Error_invoke Svc_queryMyFollowing 1)]\<rparr> \<and>
   send nonempty_slug
     \<lparr>active = S_authenticated_error,
      ctx = \<lparr>slug = ''acme-co'', community = Some \<lparr>community_id = ''c1''\<rparr>,
             followMachineServices =
               Some (ActorRef FollowMachine (Some \<lparr>community_id = ''c1''\<rparr>)),
             activitiesMachineServices =
               Some (ActorRef ActivitiesMachine (Some \<lparr>community_id = ''c1''\<rparr>)),
             isFollowing = False, isAuthenticated = True\<rparr>,
      children = [], next_token = 2,
      effects =
          [Invoke Svc_queryCommunity 0 (Call_queryCommunityBySlug ''acme-co''),
           Spawn (ActorRef FollowMachine (Some \<lparr>community_id = ''c1''\<rparr>)),
           Spawn (ActorRef ActivitiesMachine (Some \<lparr>community_id = ''c1''\<rparr>)),
           Invoke Svc_queryMyFollowing 1 Call_queryMeFollowingCommunities,
           Log \<lparr>slug = ''acme-co'', community = Some \<lparr>community_id = ''c1''\<rparr>,
                followMachineServices =
                  Some (ActorRef FollowMachine (Some \<lparr>community_id = ''c1''\<rparr>)),
                activitiesMachineServices =
                  Some (ActorRef ActivitiesMachine (Some \<lparr>community_id = ''c1''\<rparr>)),
                isFollowing = False, isAuthenticated = True\<rparr>
             (Error_invoke Svc_queryMyFollowing 1)]\<rparr>
     FOLLOW =
   Inr \<lparr>active = S_toggleFollow,
      ctx = \<lparr>slug = ''acme-co'', community = Some \<lparr>community_id = ''c1''\<rparr>,
             followMachineServices =
               Some (ActorRef FollowMachine (Some \<lparr>community_id = ''c1''\<rparr>)),
             activitiesMachineServices =
               Some (ActorRef ActivitiesMachine (Some \<lparr>community_id = ''c1''\<rparr>)),
             isFollowing = False, isAuthenticated = True\<rparr>,
      children = [(Svc_toggleFollow, 2)], next_token = 3,
      effects =
          [Invoke Svc_queryCommunity 0 (Call_queryCommunityBySlug ''acme-co''),
           Spawn (ActorRef FollowMachine (Some \<lparr>community_id = ''c1''\<rparr>)),
           Spawn (ActorRef ActivitiesMachine (Some \<lparr>community_id = ''c1''\<rparr>)),
           Invoke Svc_queryMyFollowing 1 Call_queryMeFollowingCommunities,
           Log \<lparr>slug = ''acme-co'', community = Some \<lparr>community_id = ''c1''\<rparr>,
                followMachineServices =
                  Some (ActorRef FollowMachine (Some \<lparr>community_id = ''c1''\<rparr>)),
                activitiesMachineServices =
                  Some (ActorRef ActivitiesMachine (Some \<lparr>community_id = ''c1''\<rparr>)),
                isFollowing = False, isAuthenticated = True\<rparr>
             (Error_invoke Svc_queryMyFollowing 1),
           Invoke Svc_toggleFollow 2 (Call_toggleFollow ''c1'')]\<rparr>"
  by (simp add: interpreter_defs nonempty_slug_def)

end
